theory Spec2Isabelle
  imports Main "HOL-Library.AList"
begin

section \<open>Text, bytes and exceptions\<close>

text \<open>
  The gateway of \<^verbatim>\<open>smart_webdav_gui.py\<close> handles Python \<^verbatim>\<open>str\<close> and
  \<^verbatim>\<open>bytes\<close> values. Both are modelled by \<^typ>\<open>string\<close>: a \<^verbatim>\<open>bytes\<close> value is
  the list of its bytes, a \<^verbatim>\<open>str\<close> value is the list of the bytes of its UTF-8
  encoding. The case conversions \<^verbatim>\<open>str.upper\<close> and \<^verbatim>\<open>str.lower\<close> are modelled on
  the ASCII letters and leave every other byte alone; HTTP method names and header
  names are ASCII tokens, and the constant lists they are compared with are ASCII.
\<close>

definition upper_char :: "char \<Rightarrow> char" where
  "upper_char c =
     (let n = (of_char c :: nat) in if 97 \<le> n \<and> n \<le> 122 then char_of (n - 32) else c)"

definition lower_char :: "char \<Rightarrow> char" where
  "lower_char c =
     (let n = (of_char c :: nat) in if 65 \<le> n \<and> n \<le> 90 then char_of (n + 32) else c)"

definition upper :: "string \<Rightarrow> string" where
  "upper s = map upper_char s"

definition lower :: "string \<Rightarrow> string" where
  "lower s = map lower_char s"

text \<open>\<^verbatim>\<open>s.rstrip('/')\<close>: every trailing slash is removed.\<close>

definition rstrip_slash :: "string \<Rightarrow> string" where
  "rstrip_slash s = rev (dropWhile (\<lambda>c. c = CHR ''/'') (rev s))"

text \<open>
  Exceptions are values. \<open>RaisedException cls msg\<close> is an instance of the subclass
  \<open>cls\<close> of \<^verbatim>\<open>Exception\<close>, with the text \<open>msg\<close> that \<^verbatim>\<open>str(e)\<close> gives; it is
  what a library call raises. \<open>UnicodeDecodeError\<close> is the exception of
  \<^verbatim>\<open>bytes.decode('utf-8')\<close>, the one exception that the code of the handler raises
  itself.
\<close>

datatype py_exception = RaisedException string string

fun str_of_exception :: "py_exception \<Rightarrow> string" where
  "str_of_exception (RaisedException cls msg) = msg"

datatype decode_failure = UnicodeDecodeError

text \<open>
  \<^verbatim>\<open>bytes.decode('utf-8')\<close> with the default strict error handling accepts the
  well-formed UTF-8 byte sequences (no overlong form, no surrogate, nothing above
  U+10FFFF) and raises on every other input.
\<close>

definition byte_in :: "nat \<Rightarrow> nat \<Rightarrow> char \<Rightarrow> bool" where
  "byte_in lo hi c = (lo \<le> (of_char c :: nat) \<and> (of_char c :: nat) \<le> hi)"

fun utf8_valid :: "string \<Rightarrow> bool" where
  "utf8_valid [] = True"
| "utf8_valid (c # cs) =
     (if byte_in 0 127 c then utf8_valid cs
      else if byte_in 194 223 c then
        (case cs of c1 # r \<Rightarrow> byte_in 128 191 c1 \<and> utf8_valid r | _ \<Rightarrow> False)
      else if byte_in 224 239 c then
        (case cs of c1 # c2 # r \<Rightarrow>
           (if byte_in 224 224 c then byte_in 160 191 c1
            else if byte_in 237 237 c then byte_in 128 159 c1
            else byte_in 128 191 c1)
           \<and> byte_in 128 191 c2 \<and> utf8_valid r
         | _ \<Rightarrow> False)
      else if byte_in 240 244 c then
        (case cs of c1 # c2 # c3 # r \<Rightarrow>
           (if byte_in 240 240 c then byte_in 144 191 c1
            else if byte_in 244 244 c then byte_in 128 143 c1
            else byte_in 128 191 c1)
           \<and> byte_in 128 191 c2 \<and> byte_in 128 191 c3 \<and> utf8_valid r
         | _ \<Rightarrow> False)
      else False)"

definition decode_utf8 :: "string \<Rightarrow> decode_failure + string" where
  "decode_utf8 bs = (if utf8_valid bs then Inr bs else Inl UnicodeDecodeError)"

section \<open>Configuration and routing\<close>

text \<open>
  The configuration dictionary has the four keys of \<^verbatim>\<open>DEFAULT_CONFIG\<close>; a key
  that a loaded file lacks is \<open>None\<close>. The URL entries are texts, as the defaults
  and the form fields give them. The port is the integer of the default configuration
  or the text of the form field.
\<close>

datatype port_value = PortInt int | PortStr string

record config =
  tailscale_url :: "string option"
  cloudflare_url :: "string option"
  local_port :: "port_value option"
  auto_start :: "bool option"

definition DEFAULT_CONFIG :: config where
  "DEFAULT_CONFIG =
     \<lparr>tailscale_url = Some ''http://192.168.100.10:5000'',
      cloudflare_url = Some ''https://nas.example.com'',
      local_port = Some (PortInt 8888),
      auto_start = Some False\<rparr>"

text \<open>\<^verbatim>\<open>conf.get(key, "")\<close> on a URL key.\<close>

definition get_url :: "string option \<Rightarrow> string" where
  "get_url entry = (case entry of None \<Rightarrow> [] | Some u \<Rightarrow> u)"

definition READ_METHODS :: "string list" where
  "READ_METHODS = [''GET'', ''HEAD'', ''OPTIONS'', ''PROPFIND'']"

definition HOP_BY_HOP_HEADERS :: "string list" where
  "HOP_BY_HOP_HEADERS =
     [''connection'', ''keep-alive'', ''proxy-authenticate'',
      ''proxy-authorization'', ''te'', ''trailers'',
      ''transfer-encoding'', ''upgrade'']"

text \<open>
  The first half of \<^verbatim>\<open>get_target_url\<close>: the branch on the method that binds
  \<^verbatim>\<open>base\<close> and \<^verbatim>\<open>route_type\<close>.
\<close>

definition select_route :: "config \<Rightarrow> string \<Rightarrow> string \<times> string" where
  "select_route conf method =
     (if upper method \<in> set READ_METHODS
      then (rstrip_slash (get_url (tailscale_url conf)), ''READ (Tailscale)'')
      else (rstrip_slash (get_url (cloudflare_url conf)), ''WRITE (Cloudflare)''))"

text \<open>
  The words of the specification for the test on the method: the method, compared
  without regard to case, is one of the read methods.
\<close>

definition is_read_method_ci :: "string \<Rightarrow> bool" where
  "is_read_method_ci method = (\<exists>r \<in> set READ_METHODS. lower method = lower r)"

text \<open>
  \<^verbatim>\<open>get_target_url(method, path)\<close>, with the two globals it reads as arguments:
  the configuration \<^verbatim>\<open>app_state.config\<close> and the bytes
  \<^verbatim>\<open>request.query_string\<close> (empty when the request has no query). The decoding
  of the query can raise.
\<close>

definition get_target_url ::
  "config \<Rightarrow> string \<Rightarrow> string \<Rightarrow> string \<Rightarrow> decode_failure + (string \<times> string)" where
  "get_target_url conf method path query_string =
     (let (base, route_type) = select_route conf method;
          target = base @ ''/'' @ path
      in if query_string \<noteq> []
         then (case decode_utf8 query_string of
                 Inl e \<Rightarrow> Inl e
               | Inr q \<Rightarrow> Inr (target @ ''?'' @ q, route_type))
         else Inr (target, route_type))"

section \<open>Header sanitization\<close>

text \<open>
  Header collections are association lists in iteration order. A Python \<^verbatim>\<open>dict\<close>
  is an association list without repeated keys: assigning to a key that is present
  replaces its value in place, assigning to a new key appends it (\<open>AList.update\<close>).
\<close>

type_synonym headers = "(string \<times> string) list"

text \<open>
  \<^verbatim>\<open>clean_headers(headers)\<close>: the loop over \<^verbatim>\<open>headers.items()\<close> that fills the
  dictionary \<^verbatim>\<open>cleaned\<close>. \<open>forwarded_name\<close> is the condition of the loop body.
\<close>

definition forwarded_name :: "string \<Rightarrow> bool" where
  "forwarded_name key = (lower key \<notin> set HOP_BY_HOP_HEADERS \<and> lower key \<noteq> ''host'')"

definition clean_step :: "string \<times> string \<Rightarrow> headers \<Rightarrow> headers" where
  "clean_step item cleaned =
     (case item of (key, value) \<Rightarrow>
        if forwarded_name key then AList.update key value cleaned else cleaned)"

definition clean_headers :: "headers \<Rightarrow> headers" where
  "clean_headers hs = fold clean_step hs []"

text \<open>
  The two statements of \<^verbatim>\<open>proxy\<close> that prepare the outgoing headers:
  \<^verbatim>\<open>clean_headers(request.headers)\<close>, then the default \<^verbatim>\<open>User-Agent\<close>.
\<close>

definition incoming_headers :: "headers \<Rightarrow> headers" where
  "incoming_headers hs =
     (let cleaned = clean_headers hs
      in if ''User-Agent'' \<notin> fst ` set cleaned
         then AList.update ''User-Agent'' ''SmartWebDAVProxy/2.0'' cleaned
         else cleaned)"

text \<open>
  The response side of \<^verbatim>\<open>proxy\<close>: the list \<^verbatim>\<open>excluded_headers\<close> and the
  comprehension over \<^verbatim>\<open>resp.headers.items()\<close>.
\<close>

definition excluded_headers :: "string list" where
  "excluded_headers =
     HOP_BY_HOP_HEADERS @
     [''content-encoding'', ''content-length'', ''transfer-encoding'', ''connection'']"

definition response_headers :: "headers \<Rightarrow> headers" where
  "response_headers hs = filter (\<lambda>(name, value). lower name \<notin> set excluded_headers) hs"

section \<open>The request handler\<close>

text \<open>
  What \<^verbatim>\<open>proxy\<close> reads of the inbound request, and the arguments it gives to
  \<^verbatim>\<open>requests.request\<close> (redirects are never followed, the response is streamed).
  The query is held as the bytes of the request line, \<open>req_raw_query\<close>.
\<close>

record request =
  req_method :: string
  req_raw_query :: string
  req_headers :: headers
  req_stream :: string
  req_cookies :: headers

text \<open>
  \<^verbatim>\<open>request.query_string\<close>, as the server that \<^verbatim>\<open>flask_app.run\<close> starts hands it
  to the application: that server reads the request line as ISO-8859-1 text and passes
  the query on encoded as UTF-8. A byte below 128 stays as it is; a byte \<open>b\<close> from 128
  on becomes the two bytes \<open>192 + b div 64\<close> and \<open>128 + b mod 64\<close>.
\<close>

definition wsgi_byte :: "char \<Rightarrow> string" where
  "wsgi_byte c =
     (let b = (of_char c :: nat)
      in if b < 128 then [c] else [char_of (192 + b div 64), char_of (128 + b mod 64)])"

definition wsgi_query_string :: "string \<Rightarrow> string" where
  "wsgi_query_string raw = concat (map wsgi_byte raw)"

definition request_query_string :: "request \<Rightarrow> string" where
  "request_query_string req = wsgi_query_string (req_raw_query req)"

record upstream_call =
  call_method :: string
  call_url :: string
  call_headers :: headers
  call_data :: string
  call_cookies :: headers

text \<open>
  The upstream answer, as the object \<^verbatim>\<open>resp\<close> of \<^verbatim>\<open>requests\<close>: the status code,
  the header items, the body bytes as the upstream sent them (\<open>raw_body\<close>), and the
  method \<^verbatim>\<open>iter_content\<close>, which gives for a chunk size the pieces it yields. The
  pieces are the library's: \<^verbatim>\<open>requests\<close> decodes a \<^verbatim>\<open>Content-Encoding\<close> while it
  reads and decides the size of each piece. A stream that fails after the handler has
  returned is not represented.
\<close>

record upstream_response =
  status_code :: int
  resp_headers :: headers
  raw_body :: string
  iter_content :: "nat \<Rightarrow> string list"

text \<open>
  The \<^verbatim>\<open>Response\<close> object that the handler returns: the status, the header list
  given to the constructor (empty when none is given), and the body as the sequence of
  pieces of its iterable (one piece for a body given as text).
\<close>

record response =
  status :: int
  headers :: headers
  body :: "string list"

text \<open>
  The content type of a \<^verbatim>\<open>Response\<close>: the value of a \<^verbatim>\<open>Content-Type\<close> header
  given to the constructor, and otherwise the default of Flask's \<^verbatim>\<open>Response\<close>
  class, since the source gives neither \<^verbatim>\<open>mimetype\<close> nor \<^verbatim>\<open>content_type\<close>.
\<close>

definition content_type :: "response \<Rightarrow> string" where
  "content_type r =
     (case find (\<lambda>(name, value). lower name = ''content-type'') (headers r) of
        Some (name, value) \<Rightarrow> value
      | None \<Rightarrow> ''text/html; charset=utf-8'')"

text \<open>
  \<^verbatim>\<open>proxy(path)\<close>. The two library calls of the \<^verbatim>\<open>try\<close> block are parameters:
  \<open>requests_request\<close> returns a response or raises (\<open>forwarded_call\<close> is its
  argument list), and \<open>response_error\<close> tells whether the constructor
  \<^verbatim>\<open>Response(...)\<close> builds the streamed response (\<open>None\<close>) or raises. The result
  is the list of lines given to \<^verbatim>\<open>log_message\<close>, in order, and either the
  exception that leaves the handler or the response it returns. Only the \<^verbatim>\<open>try\<close>
  block is guarded; \<^verbatim>\<open>get_target_url\<close> is called before it. \<^verbatim>\<open>log_message\<close> is
  taken to deliver its line: the handler runs in the server that \<^verbatim>\<open>run_flask\<close>
  starts after its own first call of \<^verbatim>\<open>log_message\<close> has returned, so the global
  \<^verbatim>\<open>gui_instance\<close> is bound by then.
\<close>

definition forwarded_call :: "request \<Rightarrow> string \<Rightarrow> upstream_call" where
  "forwarded_call req target_url =
     \<lparr>call_method = req_method req, call_url = target_url,
      call_headers = incoming_headers (req_headers req), call_data = req_stream req,
      call_cookies = req_cookies req\<rparr>"

text \<open>The \<^verbatim>\<open>except\<close> branch: one log line and the 502 response with the same text.\<close>

definition on_exception :: "string \<Rightarrow> py_exception \<Rightarrow> string list \<times> (decode_failure + response)" where
  "on_exception line e =
     (let err_msg = ''Error: '' @ str_of_exception e
      in ([line, err_msg], Inr \<lparr>status = 502, headers = [], body = [err_msg]\<rparr>))"

definition proxy ::
  "config \<Rightarrow> (upstream_call \<Rightarrow> py_exception + upstream_response)
     \<Rightarrow> (response \<Rightarrow> py_exception option) \<Rightarrow> request \<Rightarrow> string
     \<Rightarrow> string list \<times> (decode_failure + response)" where
  "proxy conf requests_request response_error req path =
     (case get_target_url conf (req_method req) path (request_query_string req) of
        Inl e \<Rightarrow> ([], Inl e)
      | Inr (target_url, route_type) \<Rightarrow>
          (let line = ''['' @ req_method req @ ''] '' @ route_type @ '': /'' @ path
           in case requests_request (forwarded_call req target_url) of
                Inl e \<Rightarrow> on_exception line e
              | Inr resp \<Rightarrow>
                  (let r = \<lparr>status = status_code resp,
                            headers = response_headers (resp_headers resp),
                            body = iter_content resp 4096\<rparr>
                   in case response_error r of
                        Some e \<Rightarrow> on_exception line e
                      | None \<Rightarrow> ([line], Inr r))))"

section \<open>Shared state and the control plane\<close>

text \<open>
  The configuration dictionaries are objects: \<^verbatim>\<open>app_state.config\<close> and the
  window's \<^verbatim>\<open>self.config\<close> hold references, and the handler takes a reference
  with \<^verbatim>\<open>conf = app_state.config\<close>. The store maps each address to the
  dictionary it holds.
\<close>

type_synonym addr = nat

record world =
  heap :: "addr \<Rightarrow> config"
  next_addr :: addr
  app_config :: addr
  app_running :: bool
  app_server_thread :: bool

text \<open>
  \<^verbatim>\<open>app_state = AppState()\<close>: not running, a fresh copy of the default
  configuration, no server thread.
\<close>

definition AppState_init :: world where
  "AppState_init =
     \<lparr>heap = (\<lambda>a. DEFAULT_CONFIG), next_addr = 1, app_config = 0,
      app_running = False, app_server_thread = False\<rparr>"

text \<open>The one attribute of the window object that the configuration code uses.\<close>

record gui =
  self_config :: addr

text \<open>The Tk variables behind the form fields.\<close>

record gui_vars =
  ts_url_var :: string
  cf_url_var :: string
  port_var :: string
  auto_start_var :: bool

text \<open>
  \<^verbatim>\<open>load_config\<close>: \<open>file\<close> is the dictionary read from the configuration file,
  \<open>None\<close> when the file is missing or unreadable (a copy of the defaults is taken).
  Either way \<^verbatim>\<open>self.config\<close> is a new object, and \<^verbatim>\<open>app_state.config\<close> is
  bound to the same object.
\<close>

definition load_config :: "config option \<Rightarrow> world \<Rightarrow> gui \<times> world" where
  "load_config file w =
     (let a = next_addr w;
          d = (case file of None \<Rightarrow> DEFAULT_CONFIG | Some c \<Rightarrow> c)
      in (\<lparr>self_config = a\<rparr>,
          w\<lparr>heap := (heap w)(a := d), next_addr := Suc a, app_config := a\<rparr>))"

text \<open>
  What the control plane shows or starts. The message texts of the source are
  Chinese literals and are not reproduced; each constructor stands for one of them.
\<close>

datatype ui_event =
    InfoSaved
  | ErrorSaveFailed
  | WarnRestartToStop
  | ThreadStarted
  | ButtonDisabled
  | LogServiceStarted
  | LogLocalAddress "port_value option"

text \<open>
  \<^verbatim>\<open>save_config\<close>: four assignments into the dictionary \<^verbatim>\<open>self.config\<close>, the
  rebinding of \<^verbatim>\<open>app_state.config\<close>, then the file is written (\<open>written\<close>
  tells whether that succeeded).
\<close>

definition save_config :: "gui_vars \<Rightarrow> bool \<Rightarrow> gui \<Rightarrow> world \<Rightarrow> world \<times> ui_event list" where
  "save_config vars written self w =
     (let a = self_config self;
          d = (heap w a)
                \<lparr>tailscale_url := Some (ts_url_var vars),
                 cloudflare_url := Some (cf_url_var vars),
                 local_port := Some (PortStr (port_var vars)),
                 auto_start := Some (auto_start_var vars)\<rparr>
      in (w\<lparr>heap := (heap w)(a := d), app_config := a\<rparr>,
          [if written then InfoSaved else ErrorSaveFailed]))"

text \<open>
  \<^verbatim>\<open>toggle_server\<close>: when the server runs already, a warning and nothing else;
  otherwise three assignments into the dictionary \<^verbatim>\<open>app_state.config\<close>, the
  start of the server thread, and \<^verbatim>\<open>app_state.running = True\<close>.
\<close>

definition toggle_server :: "gui_vars \<Rightarrow> world \<Rightarrow> world \<times> ui_event list" where
  "toggle_server vars w =
     (if app_running w then (w, [WarnRestartToStop])
      else
        (let a = app_config w;
             d = (heap w a)
                   \<lparr>tailscale_url := Some (ts_url_var vars),
                    cloudflare_url := Some (cf_url_var vars),
                    local_port := Some (PortStr (port_var vars))\<rparr>
         in (w\<lparr>heap := (heap w)(a := d), app_running := True, app_server_thread := True\<rparr>,
             [ThreadStarted, ButtonDisabled, LogServiceStarted, LogLocalAddress (local_port d)])))"

text \<open>
  The configuration access of a request, in the two steps of the source: the
  reference taken by \<^verbatim>\<open>conf = app_state.config\<close>, and the target computed by
  reading the dictionary behind a reference.
\<close>

definition capture_config :: "world \<Rightarrow> addr" where
  "capture_config w = app_config w"

definition target_via :: "world \<Rightarrow> addr \<Rightarrow> string \<Rightarrow> string \<Rightarrow> string
     \<Rightarrow> decode_failure + (string \<times> string)" where
  "target_via w conf method path query_string =
     get_target_url (heap w conf) method path query_string"

section \<open>Case conversion and trailing slashes\<close>

lemmas eval_text = upper_def upper_char_def lower_def lower_char_def char_of_def bit_iff_odd
  rstrip_slash_def

lemma lower_upper_char: "lower_char (upper_char c) = lower_char c"
proof (cases "97 \<le> (of_char c :: nat) \<and> (of_char c :: nat) \<le> 122")
  case True
  then have "(of_char c :: nat) - 32 < 256" by linarith
  then have m: "((of_char c :: nat) - 32) mod 256 = of_char c - 32" by (rule mod_less)
  from True have r: "65 \<le> (of_char c :: nat) - 32" "(of_char c :: nat) - 32 \<le> 90"
    by linarith+
  from True have "lower_char (upper_char c) = char_of ((of_char c :: nat) - 32 + 32)"
    by (simp add: upper_char_def lower_char_def Let_def m r)
  also from True have "\<dots> = char_of (of_char c :: nat)" by simp
  also have "\<dots> = c" by simp
  also from True have "c = lower_char c" by (simp add: lower_char_def Let_def)
  finally show ?thesis .
next
  case False
  then have "upper_char c = c" by (auto simp: upper_char_def Let_def)
  then show ?thesis by simp
qed

lemma upper_lower_char: "upper_char (lower_char c) = upper_char c"
  by (simp add: upper_char_def lower_char_def Let_def)

lemma lower_upper: "lower (upper s) = lower s"
  by (simp add: lower_def upper_def lower_upper_char)

lemma upper_lower: "upper (lower s) = upper s"
  by (simp add: lower_def upper_def upper_lower_char)

lemma read_method_test: "upper m \<in> set READ_METHODS \<longleftrightarrow> is_read_method_ci m"
  unfolding is_read_method_ci_def
proof
  assume "upper m \<in> set READ_METHODS"
  moreover have "lower m = lower (upper m)" by (simp only: lower_upper)
  ultimately show "\<exists>r \<in> set READ_METHODS. lower m = lower r" by blast
next
  assume "\<exists>r \<in> set READ_METHODS. lower m = lower r"
  then obtain r where r: "r \<in> set READ_METHODS" and eq: "lower m = lower r" by blast
  from r have "upper (lower r) = r" by (auto simp: READ_METHODS_def eval_text)
  with eq have "upper (lower m) = r" by simp
  then have "upper m = r" by (simp only: upper_lower)
  with r show "upper m \<in> set READ_METHODS" by simp
qed

lemma rstrip_slash_no_trailing: "s = [] \<or> last s \<noteq> CHR ''/'' \<Longrightarrow> rstrip_slash s = s"
proof (cases "s = []")
  case True
  then show ?thesis by (simp add: rstrip_slash_def)
next
  case False
  assume "s = [] \<or> last s \<noteq> CHR ''/''"
  with False have "hd (rev s) \<noteq> CHR ''/''" by (simp add: hd_rev)
  with False have "dropWhile (\<lambda>c. c = CHR ''/'') (rev s) = rev s"
    by (cases "rev s") auto
  then show ?thesis by (simp add: rstrip_slash_def)
qed

lemma rev_all_same: "\<forall>x\<in>set xs. x = c \<Longrightarrow> rev xs = replicate (length xs) c"
  by (induction xs) (auto simp: replicate_append_same)

lemma rstrip_slash_shape:
  "(\<exists>n. s = rstrip_slash s @ replicate n (CHR ''/'')) \<and>
   (rstrip_slash s = [] \<or> last (rstrip_slash s) \<noteq> CHR ''/'')"
proof -
  let ?P = "\<lambda>c. c = CHR ''/''"
  let ?n = "length (takeWhile ?P (rev s))"
  have tw: "rev (takeWhile ?P (rev s)) = replicate ?n (CHR ''/'')"
    by (rule rev_all_same) (auto dest: set_takeWhileD)
  have "s = rev (takeWhile ?P (rev s) @ dropWhile ?P (rev s))" by simp
  also have "\<dots> = rev (dropWhile ?P (rev s)) @ rev (takeWhile ?P (rev s))"
    by (rule rev_append)
  also have "\<dots> = rstrip_slash s @ replicate ?n (CHR ''/'')"
    by (simp only: tw rstrip_slash_def)
  finally have "s = rstrip_slash s @ replicate ?n (CHR ''/'')" .
  then have a: "\<exists>n. s = rstrip_slash s @ replicate n (CHR ''/'')" ..
  have b: "rstrip_slash s = [] \<or> last (rstrip_slash s) \<noteq> CHR ''/''"
  proof (cases "dropWhile ?P (rev s)")
    case Nil
    then show ?thesis by (simp add: rstrip_slash_def)
  next
    case (Cons x xs)
    then have "\<not> ?P x" by (simp add: dropWhile_eq_Cons_conv)
    with Cons show ?thesis by (simp add: rstrip_slash_def)
  qed
  from a b show ?thesis ..
qed

section \<open>Routing\<close>

lemma get_target_url_shape:
  "get_target_url conf m path q = Inr (target, rt) \<Longrightarrow>
     target = fst (select_route conf m) @ ''/'' @ path @ (if q = [] then [] else ''?'' @ q)
     \<and> rt = snd (select_route conf m)"
  by (auto simp: get_target_url_def decode_utf8_def Let_def split: prod.splits if_splits)

text \<open>
  C1 (as amended). For every configuration and method, the base chosen by the
  classifier is the configured read URL (\<^verbatim>\<open>tailscale_url\<close>) with its trailing slashes
  removed when the method, compared without regard to case, is one of GET, HEAD,
  OPTIONS, PROPFIND, and the configured write URL (\<^verbatim>\<open>cloudflare_url\<close>) with its
  trailing slashes removed for every other method; a missing key counts as the empty
  text. The route label follows the same test, every computed target starts with that
  base and a slash, and the base is the configured URL itself when that does not end
  with a slash.
\<close>

theorem target_base_is_stripped_url:
  "fst (select_route conf m) =
     rstrip_slash (get_url (if is_read_method_ci m then tailscale_url conf else cloudflare_url conf))
   \<and> snd (select_route conf m) =
     (if is_read_method_ci m then ''READ (Tailscale)'' else ''WRITE (Cloudflare)'')
   \<and> (\<forall>target rt. get_target_url conf m path q = Inr (target, rt) \<longrightarrow>
        (\<exists>rest. target = fst (select_route conf m) @ ''/'' @ rest))
   \<and> (\<forall>u. get_url (if is_read_method_ci m then tailscale_url conf else cloudflare_url conf) = u
          \<and> (u = [] \<or> last u \<noteq> CHR ''/'') \<longrightarrow> fst (select_route conf m) = u)"
proof -
  let ?u = "get_url (if is_read_method_ci m then tailscale_url conf else cloudflare_url conf)"
  have base: "fst (select_route conf m) = rstrip_slash ?u"
    by (simp add: select_route_def read_method_test)
  have kind: "snd (select_route conf m) =
      (if is_read_method_ci m then ''READ (Tailscale)'' else ''WRITE (Cloudflare)'')"
    by (simp add: select_route_def read_method_test)
  have pre: "\<forall>target rt. get_target_url conf m path q = Inr (target, rt) \<longrightarrow>
        (\<exists>rest. target = fst (select_route conf m) @ ''/'' @ rest)"
    by (blast dest: get_target_url_shape)
  have same: "\<forall>u. ?u = u \<and> (u = [] \<or> last u \<noteq> CHR ''/'') \<longrightarrow> fst (select_route conf m) = u"
    using base rstrip_slash_no_trailing by auto
  from base kind pre same show ?thesis by blast
qed

text \<open>
  C1, witness: the lower-case method \<^verbatim>\<open>propfind\<close> is a read method; with the
  default configuration the base is the configured read URL, and a read URL ending in
  two slashes loses both.
\<close>

theorem target_base_is_stripped_url_witness:
  "is_read_method_ci ''propfind''
   \<and> fst (select_route (DEFAULT_CONFIG\<lparr>tailscale_url := Some ''http://a//''\<rparr>) ''propfind'') = ''http://a''
   \<and> fst (select_route DEFAULT_CONFIG ''propfind'') = ''http://192.168.100.10:5000''"
proof -
  have r: "is_read_method_ci ''propfind''"
    by (simp add: is_read_method_ci_def READ_METHODS_def eval_text)
  have d: "get_url (if is_read_method_ci ''propfind'' then tailscale_url DEFAULT_CONFIG
              else cloudflare_url DEFAULT_CONFIG) = ''http://192.168.100.10:5000''
           \<and> (''http://192.168.100.10:5000'' = [] \<or> last ''http://192.168.100.10:5000'' \<noteq> CHR ''/'')"
    by (simp add: r get_url_def DEFAULT_CONFIG_def)
  show ?thesis
    using r d
      target_base_is_stripped_url [of "DEFAULT_CONFIG\<lparr>tailscale_url := Some ''http://a//''\<rparr>" "''propfind''" "[]" "[]"]
      target_base_is_stripped_url [of DEFAULT_CONFIG "''propfind''" "[]" "[]"]
    by (simp add: get_url_def rstrip_slash_def)
qed

text \<open>
  C1, counterexample to the claim as stated: with the read URL \<^verbatim>\<open>http://a/\<close>
  configured, a GET request gets the base \<^verbatim>\<open>http://a\<close>, which is not the configured
  URL; the target of \<^verbatim>\<open>doc.txt\<close> has one slash where the configured URL followed
  by a slash and the path would have two.
\<close>

theorem target_base_differs_from_configured_url:
  "is_read_method_ci ''GET''
   \<and> get_url (tailscale_url (DEFAULT_CONFIG\<lparr>tailscale_url := Some ''http://a/''\<rparr>)) = ''http://a/''
   \<and> fst (select_route (DEFAULT_CONFIG\<lparr>tailscale_url := Some ''http://a/''\<rparr>) ''GET'') = ''http://a''
   \<and> get_target_url (DEFAULT_CONFIG\<lparr>tailscale_url := Some ''http://a/''\<rparr>) ''GET'' ''doc.txt'' []
       = Inr (''http://a/doc.txt'', ''READ (Tailscale)'')"
  by (simp add: is_read_method_ci_def READ_METHODS_def eval_text get_url_def DEFAULT_CONFIG_def
      select_route_def get_target_url_def)

section \<open>Properties of the header sanitization\<close>

lemma update_absent: "k \<notin> fst ` set al \<Longrightarrow> AList.update k v al = al @ [(k, v)]"
  by (induction al) auto

lemma clean_headers_foldr: "clean_headers hs = foldr clean_step (rev hs) []"
  by (simp add: clean_headers_def foldr_conv_fold)

lemma map_of_foldr_clean_step:
  "map_of (foldr clean_step ys []) k = (if forwarded_name k then map_of ys k else None)"
proof (induction ys)
  case Nil
  then show ?case by simp
next
  case (Cons y ys)
  obtain k' v' where y: "y = (k', v')" by (cases y)
  show ?case
  proof (cases "forwarded_name k'")
    case True
    with Cons y show ?thesis by (auto simp: clean_step_def update_conv')
  next
    case False
    with Cons y show ?thesis by (auto simp: clean_step_def)
  qed
qed

lemma map_of_clean_headers:
  "map_of (clean_headers hs) k = (if forwarded_name k then map_of (rev hs) k else None)"
  by (simp only: clean_headers_foldr map_of_foldr_clean_step)

lemma distinct_fold_clean_step:
  "distinct (map fst acc) \<Longrightarrow> distinct (map fst (fold clean_step hs acc))"
proof (induction hs arbitrary: acc)
  case Nil
  then show ?case by simp
next
  case (Cons h hs)
  have "distinct (map fst (clean_step h acc))"
    using Cons.prems by (cases h) (simp add: clean_step_def distinct_update)
  then show ?case using Cons.IH by simp
qed

lemma distinct_clean_headers: "distinct (map fst (clean_headers hs))"
  by (simp add: clean_headers_def distinct_fold_clean_step)

lemma clean_headers_member:
  assumes "(k, v) \<in> set (clean_headers hs)"
  shows "forwarded_name k \<and> map_of (rev hs) k = Some v"
proof -
  from assms have "map_of (clean_headers hs) k = Some v"
    by (simp add: distinct_clean_headers)
  then show ?thesis
    by (simp add: map_of_clean_headers split: if_splits)
qed

lemma fold_clean_step_distinct:
  "distinct (map fst xs) \<Longrightarrow> fst ` set xs \<inter> fst ` set acc = {} \<Longrightarrow>
     fold clean_step xs acc = acc @ filter (\<lambda>(k, v). forwarded_name k) xs"
proof (induction xs arbitrary: acc)
  case Nil
  then show ?case by simp
next
  case (Cons x xs)
  obtain k v where x: "x = (k, v)" by (cases x)
  from Cons.prems x have fresh: "k \<notin> fst ` set acc" and tail: "k \<notin> fst ` set xs"
    and d: "distinct (map fst xs)" and disj: "fst ` set xs \<inter> fst ` set acc = {}"
    by auto
  show ?case
  proof (cases "forwarded_name k")
    case True
    then have "clean_step x acc = acc @ [(k, v)]"
      using fresh x by (simp add: clean_step_def update_absent)
    moreover have "fst ` set xs \<inter> fst ` set (acc @ [(k, v)]) = {}"
      using disj tail by auto
    ultimately show ?thesis using Cons.IH [OF d] True x by simp
  next
    case False
    then have "clean_step x acc = acc" using x by (simp add: clean_step_def)
    then show ?thesis using Cons.IH [OF d disj] False x by simp
  qed
qed

lemma clean_headers_distinct:
  "distinct (map fst hs) \<Longrightarrow> clean_headers hs = filter (\<lambda>(k, v). forwarded_name k) hs"
  using fold_clean_step_distinct [of hs "[]"] by (simp add: clean_headers_def)

lemma clean_headers_fixed:
  assumes "distinct (map fst hs)" and "\<forall>(k, v) \<in> set hs. forwarded_name k"
  shows "clean_headers hs = hs"
proof -
  from assms(2) have "filter (\<lambda>(k, v). forwarded_name k) hs = hs"
    by (intro filter_True) auto
  with clean_headers_distinct [OF assms(1)] show ?thesis by simp
qed

lemma clean_headers_idem: "clean_headers (clean_headers hs) = clean_headers hs"
  by (rule clean_headers_fixed) (auto simp: distinct_clean_headers dest: clean_headers_member)

lemma forwarded_user_agent: "forwarded_name ''User-Agent''"
  by (simp add: forwarded_name_def HOP_BY_HOP_HEADERS_def eval_text)

lemma incoming_headers_cases:
  "incoming_headers hs =
     (if ''User-Agent'' \<in> fst ` set (clean_headers hs) then clean_headers hs
      else clean_headers hs @ [(''User-Agent'', ''SmartWebDAVProxy/2.0'')])"
  by (simp add: incoming_headers_def Let_def update_absent)

lemma incoming_headers_fixed:
  assumes "distinct (map fst hs)" and "\<forall>(k, v) \<in> set hs. forwarded_name k"
    and "''User-Agent'' \<in> fst ` set hs"
  shows "incoming_headers hs = hs"
  using assms by (simp add: incoming_headers_cases clean_headers_fixed)

lemma incoming_headers_idem: "incoming_headers (incoming_headers hs) = incoming_headers hs"
proof (cases "''User-Agent'' \<in> fst ` set (clean_headers hs)")
  case True
  then have "incoming_headers hs = clean_headers hs" by (simp add: incoming_headers_cases)
  moreover have "incoming_headers (clean_headers hs) = clean_headers hs"
    using True by (intro incoming_headers_fixed) (auto simp: distinct_clean_headers dest: clean_headers_member)
  ultimately show ?thesis by simp
next
  case False
  let ?d = "clean_headers hs @ [(''User-Agent'', ''SmartWebDAVProxy/2.0'')]"
  from False have eq: "incoming_headers hs = ?d" by (simp add: incoming_headers_cases)
  have "distinct (map fst ?d)" using False by (simp add: distinct_clean_headers image_iff)
  moreover have "\<forall>(k, v) \<in> set ?d. forwarded_name k"
    by (auto simp: forwarded_user_agent dest: clean_headers_member)
  moreover have "''User-Agent'' \<in> fst ` set ?d" by simp
  ultimately have "incoming_headers ?d = ?d" by (rule incoming_headers_fixed)
  with eq show ?thesis by simp
qed

lemma incoming_headers_member:
  "(k, v) \<in> set (incoming_headers hs) \<Longrightarrow> forwarded_name k"
  by (auto simp: incoming_headers_cases forwarded_user_agent split: if_splits dest: clean_headers_member)

lemma map_of_first_occurrence:
  "map_of ys k = Some v \<Longrightarrow> \<exists>a b. ys = a @ (k, v) # b \<and> k \<notin> fst ` set a"
proof (induction ys)
  case Nil
  then show ?case by simp
next
  case (Cons y ys)
  show ?case
  proof (cases "fst y = k")
    case True
    with Cons.prems have "y = (k, v)" by (cases y) simp
    then have "y # ys = [] @ (k, v) # ys \<and> k \<notin> fst ` set []" by simp
    then show ?thesis by blast
  next
    case False
    with Cons.prems have "map_of ys k = Some v" by (cases y) (simp split: if_splits)
    with Cons.IH obtain a b where "ys = a @ (k, v) # b" and "k \<notin> fst ` set a" by blast
    with False have "y # ys = (y # a) @ (k, v) # b \<and> k \<notin> fst ` set (y # a)" by auto
    then show ?thesis by blast
  qed
qed

lemma map_of_rev_last_occurrence:
  assumes "map_of (rev hs) k = Some v"
  shows "\<exists>pre post. hs = pre @ (k, v) # post \<and> k \<notin> fst ` set post"
proof -
  from map_of_first_occurrence [OF assms]
  obtain a b where r: "rev hs = a @ (k, v) # b" and a: "k \<notin> fst ` set a" by blast
  from r have "rev (rev hs) = rev (a @ (k, v) # b)" by simp
  then have "hs = rev b @ (k, v) # rev a" by simp
  moreover from a have "k \<notin> fst ` set (rev a)" by simp
  ultimately show ?thesis by blast
qed

section \<open>Target URL and request headers\<close>

lemma get_target_url_decodable:
  "utf8_valid q \<Longrightarrow>
     get_target_url conf m path q =
       Inr (fst (select_route conf m) @ ''/'' @ path @ (if q = [] then [] else ''?'' @ q),
            snd (select_route conf m))"
  by (simp add: get_target_url_def decode_utf8_def Let_def split: prod.splits)

lemma of_char_less_256: "(of_char c :: nat) < 256"
proof -
  have "(of_char c :: nat) mod 256 = of_char c" by (rule of_char_mod_256)
  moreover have "(of_char c :: nat) mod 256 < 256" by simp
  ultimately show ?thesis by simp
qed

lemma wsgi_byte_low: "(of_char c :: nat) < 128 \<Longrightarrow> wsgi_byte c = [c]"
  unfolding wsgi_byte_def Let_def by (rule if_P)

lemma wsgi_byte_high:
  "\<not> (of_char c :: nat) < 128 \<Longrightarrow>
     wsgi_byte c = [char_of (192 + (of_char c :: nat) div 64), char_of (128 + (of_char c :: nat) mod 64)]"
  unfolding wsgi_byte_def Let_def by (rule if_not_P)


lemma byte_in_char_of: "n < 256 \<Longrightarrow> byte_in lo hi (char_of n) = (lo \<le> n \<and> n \<le> hi)"
  by (simp add: byte_in_def)

lemma utf8_valid_two_bytes:
  fixes a b :: nat
  assumes "194 \<le> a" "a \<le> 223" "128 \<le> b" "b \<le> 191"
  shows "utf8_valid (char_of a # char_of b # rest) = utf8_valid rest"
proof -
  from assms have a: "a < 256" and b: "b < 256" by linarith+
  from assms show ?thesis
    by (simp add: byte_in_char_of [OF a] byte_in_char_of [OF b])
qed

lemma high_byte_ranges:
  fixes n :: nat
  assumes "\<not> n < 128" "n < 256"
  shows "194 \<le> 192 + n div 64" "192 + n div 64 \<le> 223" "128 \<le> 128 + n mod 64"
    "128 + n mod 64 \<le> 191"
proof -
  from assms(1) have "128 div 64 \<le> n div 64" by (intro div_le_mono) simp
  then have lo: "2 \<le> n div 64" by simp
  from assms(2) have "n div 64 \<le> 255 div 64" by (intro div_le_mono) simp
  then have hi: "n div 64 \<le> 3" by simp
  have m: "n mod 64 < 64" by simp
  from lo show "194 \<le> 192 + n div 64" by linarith
  from hi show "192 + n div 64 \<le> 223" by linarith
  show "128 \<le> 128 + n mod 64" by simp
  from m show "128 + n mod 64 \<le> 191" by linarith
qed

lemma utf8_valid_wsgi_byte: "utf8_valid (wsgi_byte c @ rest) = utf8_valid rest"
proof (cases "(of_char c :: nat) < 128")
  case True
  then have "byte_in 0 127 c" by (simp add: byte_in_def)
  then show ?thesis by (simp add: wsgi_byte_low [OF True])
next
  case False
  note r = high_byte_ranges [OF False of_char_less_256]
  show ?thesis
    by (simp only: wsgi_byte_high [OF False] append_Cons append_Nil
        utf8_valid_two_bytes [OF r])
qed

lemma utf8_valid_wsgi_query_string: "utf8_valid (wsgi_query_string raw)"
  unfolding wsgi_query_string_def
  by (induction raw) (simp_all add: utf8_valid_wsgi_byte)

lemma wsgi_byte_not_empty: "wsgi_byte c \<noteq> []"
  by (cases "(of_char c :: nat) < 128") (simp_all only: wsgi_byte_low wsgi_byte_high list.distinct not_False_eq_True)

lemma wsgi_query_string_empty: "wsgi_query_string raw = [] \<longleftrightarrow> raw = []"
  by (cases raw) (simp_all add: wsgi_query_string_def wsgi_byte_not_empty)

lemma wsgi_query_string_ascii:
  "\<forall>c \<in> set raw. (of_char c :: nat) < 128 \<Longrightarrow> wsgi_query_string raw = raw"
  unfolding wsgi_query_string_def
  by (induction raw) (simp_all add: wsgi_byte_low)

text \<open>
  C2. For every base URL, path and raw query string, the computed target is the base
  with all its trailing slashes removed, a slash, the path (which may be empty), and,
  when the query is not empty, a question mark and the query, byte for byte as
  \<^verbatim>\<open>request.query_string\<close> holds it. The query strings are those that the server
  hands to the application, \<open>wsgi_query_string raw\<close> for the bytes \<open>raw\<close> of the
  request line; they all decode.
\<close>

theorem target_url_format:
  assumes "base = get_url (if upper method \<in> set READ_METHODS then tailscale_url conf
                         else cloudflare_url conf)"
    and "query = wsgi_query_string raw"
  shows "\<exists>stripped n route_type.
           base = stripped @ replicate n (CHR ''/'')
           \<and> (stripped = [] \<or> last stripped \<noteq> CHR ''/'')
           \<and> get_target_url conf method path query =
               Inr (stripped @ ''/'' @ path @ (if query = [] then [] else ''?'' @ query),
                    route_type)"
proof -
  have b: "fst (select_route conf method) = rstrip_slash base"
    by (simp add: select_route_def assms(1))
  have v: "utf8_valid query" by (simp add: assms(2) utf8_valid_wsgi_query_string)
  from rstrip_slash_shape [of base] obtain n where
    n: "base = rstrip_slash base @ replicate n (CHR ''/'')"
    and l: "rstrip_slash base = [] \<or> last (rstrip_slash base) \<noteq> CHR ''/''" by blast
  from get_target_url_decodable [OF v, of conf "method" "path"] b
  have "get_target_url conf method path query =
      Inr (rstrip_slash base @ ''/'' @ path @ (if query = [] then [] else ''?'' @ query),
           snd (select_route conf method))" by simp
  with n l show ?thesis by blast
qed

text \<open>
  C2, witness: the request \<^verbatim>\<open>GET /files/doc.txt?x=1\<close> with the read URL
  \<^verbatim>\<open>http://a//\<close> has the target \<^verbatim>\<open>http://a/files/doc.txt?x=1\<close>; and the byte
  \<^verbatim>\<open>0xFF\<close> in the request line reaches the application as the two bytes
  \<^verbatim>\<open>0xC3 0xBF\<close>, which are appended as they are.
\<close>

theorem target_url_format_witness:
  "wsgi_query_string ''x=1'' = ''x=1''
   \<and> (\<exists>stripped n route_type.
         ''http://a//'' = stripped @ replicate n (CHR ''/'')
         \<and> (stripped = [] \<or> last stripped \<noteq> CHR ''/'')
         \<and> get_target_url (DEFAULT_CONFIG\<lparr>tailscale_url := Some ''http://a//''\<rparr>) ''GET''
              ''files/doc.txt'' ''x=1''
            = Inr (stripped @ ''/'' @ ''files/doc.txt'' @ (if ''x=1'' = [] then [] else ''?'' @ ''x=1''),
                   route_type))
   \<and> get_target_url (DEFAULT_CONFIG\<lparr>tailscale_url := Some ''http://a//''\<rparr>) ''GET''
        ''files/doc.txt'' ''x=1'' = Inr (''http://a/files/doc.txt?x=1'', ''READ (Tailscale)'')
   \<and> wsgi_query_string [CHR 0xFF] = [CHR 0xC3, CHR 0xBF]
   \<and> get_target_url (DEFAULT_CONFIG\<lparr>tailscale_url := Some ''http://a//''\<rparr>) ''GET''
        ''files/doc.txt'' (wsgi_query_string [CHR 0xFF])
       = Inr (''http://a/files/doc.txt?'' @ [CHR 0xC3, CHR 0xBF], ''READ (Tailscale)'')"
proof -
  let ?conf = "DEFAULT_CONFIG\<lparr>tailscale_url := Some ''http://a//''\<rparr>"
  have q: "''x=1'' = wsgi_query_string ''x=1''"
    by (simp add: wsgi_query_string_def wsgi_byte_def)
  have f: "wsgi_query_string [CHR 0xFF] = [CHR 0xC3, CHR 0xBF]"
    by (simp add: wsgi_query_string_def wsgi_byte_def char_of_def bit_iff_odd)
  have b: "''http://a//'' = get_url (if upper ''GET'' \<in> set READ_METHODS then tailscale_url ?conf
                         else cloudflare_url ?conf)"
    by (simp add: READ_METHODS_def eval_text get_url_def)
  have e: "get_target_url ?conf ''GET'' ''files/doc.txt'' ''x=1''
      = Inr (''http://a/files/doc.txt?x=1'', ''READ (Tailscale)'')"
    by (simp add: get_target_url_def select_route_def READ_METHODS_def eval_text get_url_def
        decode_utf8_def byte_in_def)
  have g: "get_target_url ?conf ''GET'' ''files/doc.txt'' (wsgi_query_string [CHR 0xFF])
       = Inr (''http://a/files/doc.txt?'' @ [CHR 0xC3, CHR 0xBF], ''READ (Tailscale)'')"
    by (simp add: f get_target_url_def select_route_def READ_METHODS_def eval_text get_url_def
        decode_utf8_def byte_in_def)
  from q [symmetric] target_url_format [OF b q, of "''files/doc.txt''"] e f g show ?thesis
    by (intro conjI)
qed

text \<open>
  C4. The request-side sanitization removes every header whose name, in lower case, is
  in the hop-by-hop list or is \<^verbatim>\<open>host\<close>; every other name keeps its value (the
  value of its last occurrence, \<open>map_of (rev hs)\<close>), and a header list without repeated
  names keeps exactly its other items, in order; the fixed \<^verbatim>\<open>User-Agent\<close> value is
  appended exactly when the sanitized headers have no \<^verbatim>\<open>User-Agent\<close> key.
\<close>

theorem request_headers_sanitized:
  "(\<forall>k. lower k \<in> set HOP_BY_HOP_HEADERS \<or> lower k = ''host'' \<longrightarrow>
        map_of (clean_headers hs) k = None)
   \<and> (\<forall>k. \<not> (lower k \<in> set HOP_BY_HOP_HEADERS \<or> lower k = ''host'') \<longrightarrow>
        map_of (clean_headers hs) k = map_of (rev hs) k)
   \<and> (distinct (map fst hs) \<longrightarrow>
        clean_headers hs =
          filter (\<lambda>(k, v). \<not> (lower k \<in> set HOP_BY_HOP_HEADERS \<or> lower k = ''host'')) hs)
   \<and> incoming_headers hs =
        (if ''User-Agent'' \<in> fst ` set (clean_headers hs) then clean_headers hs
         else clean_headers hs @ [(''User-Agent'', ''SmartWebDAVProxy/2.0'')])"
proof -
  have f: "\<And>k. forwarded_name k = (\<not> (lower k \<in> set HOP_BY_HOP_HEADERS \<or> lower k = ''host''))"
    by (simp add: forwarded_name_def)
  have 1: "\<forall>k. lower k \<in> set HOP_BY_HOP_HEADERS \<or> lower k = ''host'' \<longrightarrow>
        map_of (clean_headers hs) k = None"
    by (simp add: map_of_clean_headers f)
  have 2: "\<forall>k. \<not> (lower k \<in> set HOP_BY_HOP_HEADERS \<or> lower k = ''host'') \<longrightarrow>
        map_of (clean_headers hs) k = map_of (rev hs) k"
    by (simp add: map_of_clean_headers f)
  have 3: "distinct (map fst hs) \<longrightarrow>
        clean_headers hs =
          filter (\<lambda>(k, v). \<not> (lower k \<in> set HOP_BY_HOP_HEADERS \<or> lower k = ''host'')) hs"
    using clean_headers_distinct [of hs] by (simp add: f)
  from 1 2 3 incoming_headers_cases [of hs] show ?thesis by blast
qed

text \<open>
  C4, witness: of \<^verbatim>\<open>Host\<close>, \<^verbatim>\<open>Accept\<close> and \<^verbatim>\<open>Connection\<close> only \<^verbatim>\<open>Accept\<close>
  is kept, and the default \<^verbatim>\<open>User-Agent\<close> is appended.
\<close>

theorem request_headers_sanitized_witness:
  "lower ''Connection'' \<in> set HOP_BY_HOP_HEADERS
   \<and> lower ''Host'' = ''host''
   \<and> \<not> (lower ''Accept'' \<in> set HOP_BY_HOP_HEADERS \<or> lower ''Accept'' = ''host'')
   \<and> distinct (map fst [(''Host'', ''h''), (''Accept'', ''a''), (''Connection'', ''close'')])
   \<and> map_of (clean_headers [(''Host'', ''h''), (''Accept'', ''a''), (''Connection'', ''close'')])
         ''Connection'' = None
   \<and> map_of (clean_headers [(''Host'', ''h''), (''Accept'', ''a''), (''Connection'', ''close'')])
         ''Host'' = None
   \<and> clean_headers [(''Host'', ''h''), (''Accept'', ''a''), (''Connection'', ''close'')]
        = [(''Accept'', ''a'')]
   \<and> incoming_headers [(''Host'', ''h''), (''Accept'', ''a''), (''Connection'', ''close'')]
        = [(''Accept'', ''a''), (''User-Agent'', ''SmartWebDAVProxy/2.0'')]"
proof -
  let ?hs = "[(''Host'', ''h''), (''Accept'', ''a''), (''Connection'', ''close'')]"
  have c: "lower ''Connection'' \<in> set HOP_BY_HOP_HEADERS"
    by (simp add: HOP_BY_HOP_HEADERS_def eval_text)
  have h: "lower ''Host'' = ''host''" by (simp add: eval_text)
  have a: "\<not> (lower ''Accept'' \<in> set HOP_BY_HOP_HEADERS \<or> lower ''Accept'' = ''host'')"
    by (simp add: HOP_BY_HOP_HEADERS_def eval_text)
  have d: "distinct (map fst ?hs)" by simp
  from c h a d request_headers_sanitized [of ?hs] show ?thesis
    by (simp add: eval_text)
qed

text \<open>
  C5. Sanitizing twice is the same as sanitizing once, for \<^verbatim>\<open>clean_headers\<close>, for
  the whole request side (\<^verbatim>\<open>clean_headers\<close> followed by the default
  \<^verbatim>\<open>User-Agent\<close>) and for the response side; and for every input no name of the
  hop-by-hop list, compared in lower case, is left in any of the three outputs.
\<close>

theorem sanitization_idempotent:
  "clean_headers (clean_headers hs) = clean_headers hs
   \<and> incoming_headers (incoming_headers hs) = incoming_headers hs
   \<and> response_headers (response_headers hs) = response_headers hs
   \<and> (\<forall>(k, v) \<in> set (clean_headers hs). lower k \<notin> set HOP_BY_HOP_HEADERS)
   \<and> (\<forall>(k, v) \<in> set (incoming_headers hs). lower k \<notin> set HOP_BY_HOP_HEADERS)
   \<and> (\<forall>(k, v) \<in> set (response_headers hs). lower k \<notin> set HOP_BY_HOP_HEADERS)"
proof -
  have 1: "response_headers (response_headers hs) = response_headers hs"
    by (simp add: response_headers_def)
  have 2: "\<forall>(k, v) \<in> set (clean_headers hs). lower k \<notin> set HOP_BY_HOP_HEADERS"
    using clean_headers_member [of _ _ hs] by (auto simp: forwarded_name_def)
  have 3: "\<forall>(k, v) \<in> set (incoming_headers hs). lower k \<notin> set HOP_BY_HOP_HEADERS"
    using incoming_headers_member [of _ _ hs] by (auto simp: forwarded_name_def)
  have 4: "\<forall>(k, v) \<in> set (response_headers hs). lower k \<notin> set HOP_BY_HOP_HEADERS"
    by (auto simp: response_headers_def excluded_headers_def)
  from clean_headers_idem [of hs] incoming_headers_idem [of hs] 1 2 3 4 show ?thesis
    by (intro conjI)
qed

text \<open>
  C5, witness: \<^verbatim>\<open>Te\<close> is removed on the request side, \<^verbatim>\<open>Upgrade\<close> and
  \<^verbatim>\<open>Content-Length\<close> on the response side, and a second pass changes nothing.
\<close>

theorem sanitization_idempotent_witness:
  "clean_headers (clean_headers [(''Te'', ''x''), (''Accept'', ''a'')])
     = clean_headers [(''Te'', ''x''), (''Accept'', ''a'')]
   \<and> clean_headers [(''Te'', ''x''), (''Accept'', ''a'')] = [(''Accept'', ''a'')]
   \<and> response_headers (response_headers [(''Upgrade'', ''x''), (''Content-Length'', ''7''), (''ETag'', ''e'')])
     = response_headers [(''Upgrade'', ''x''), (''Content-Length'', ''7''), (''ETag'', ''e'')]
   \<and> response_headers [(''Upgrade'', ''x''), (''Content-Length'', ''7''), (''ETag'', ''e'')]
     = [(''ETag'', ''e'')]"
proof -
  have c: "clean_headers [(''Te'', ''x''), (''Accept'', ''a'')] = [(''Accept'', ''a'')]"
    by (simp add: clean_headers_def clean_step_def forwarded_name_def HOP_BY_HOP_HEADERS_def eval_text)
  have r: "response_headers [(''Upgrade'', ''x''), (''Content-Length'', ''7''), (''ETag'', ''e'')]
     = [(''ETag'', ''e'')]"
    by (simp add: response_headers_def excluded_headers_def HOP_BY_HOP_HEADERS_def eval_text)
  from sanitization_idempotent [of "[(''Te'', ''x''), (''Accept'', ''a'')]"]
    sanitization_idempotent [of "[(''Upgrade'', ''x''), (''Content-Length'', ''7''), (''ETag'', ''e'')]"]
    c r
  show ?thesis by blast
qed

text \<open>
  C9. The result of \<^verbatim>\<open>clean_headers\<close> has no repeated name, although the inbound
  header list may have: every item of the result is the last occurrence of its name
  in the input, and the last occurrence of every forwarded name is in the result.
\<close>

theorem clean_headers_last_value_wins:
  "distinct (map fst (clean_headers hs))
   \<and> (\<forall>k v. (k, v) \<in> set (clean_headers hs) \<longrightarrow>
         (\<exists>pre post. hs = pre @ (k, v) # post \<and> k \<notin> fst ` set post))
   \<and> (\<forall>pre k v post. hs = pre @ (k, v) # post \<and> k \<notin> fst ` set post \<and> forwarded_name k \<longrightarrow>
         (k, v) \<in> set (clean_headers hs))"
proof -
  have 1: "\<forall>k v. (k, v) \<in> set (clean_headers hs) \<longrightarrow>
         (\<exists>pre post. hs = pre @ (k, v) # post \<and> k \<notin> fst ` set post)"
    by (blast dest: clean_headers_member map_of_rev_last_occurrence)
  have 2: "\<forall>pre k v post. hs = pre @ (k, v) # post \<and> k \<notin> fst ` set post \<and> forwarded_name k \<longrightarrow>
         (k, v) \<in> set (clean_headers hs)"
  proof (intro allI impI)
    fix pre k v post
    assume a: "hs = pre @ (k, v) # post \<and> k \<notin> fst ` set post \<and> forwarded_name k"
    then have "rev hs = rev post @ (k, v) # rev pre" by simp
    moreover from a have "map_of (rev post) k = None" by (simp add: map_of_eq_None_iff)
    ultimately have "map_of (rev hs) k = Some v" by (simp add: map_add_def)
    with a have "map_of (clean_headers hs) k = Some v" by (simp add: map_of_clean_headers)
    then show "(k, v) \<in> set (clean_headers hs)" by (rule map_of_SomeD)
  qed
  from distinct_clean_headers [of hs] 1 2 show ?thesis by (intro conjI)
qed

text \<open>
  C9, witness: of two \<^verbatim>\<open>Accept\<close> headers the value of the second is kept, at the
  place of the first.
\<close>

theorem clean_headers_last_value_wins_witness:
  "clean_headers [(''Accept'', ''a''), (''X-Tag'', ''t''), (''Accept'', ''b'')]
     = [(''Accept'', ''b''), (''X-Tag'', ''t'')]
   \<and> distinct (map fst (clean_headers [(''Accept'', ''a''), (''X-Tag'', ''t''), (''Accept'', ''b'')]))
   \<and> (''Accept'', ''b'') \<in> set (clean_headers [(''Accept'', ''a''), (''X-Tag'', ''t''), (''Accept'', ''b'')])
   \<and> (''Accept'', ''a'') \<notin> set (clean_headers [(''Accept'', ''a''), (''X-Tag'', ''t''), (''Accept'', ''b'')])"
proof -
  let ?hs = "[(''Accept'', ''a''), (''X-Tag'', ''t''), (''Accept'', ''b'')]"
  have f: "forwarded_name ''Accept''"
    by (simp add: forwarded_name_def HOP_BY_HOP_HEADERS_def eval_text)
  have s: "?hs = [(''Accept'', ''a''), (''X-Tag'', ''t'')] @ (''Accept'', ''b'') # []
             \<and> ''Accept'' \<notin> fst ` set [] \<and> forwarded_name ''Accept''"
    using f by simp
  have c: "clean_headers ?hs = [(''Accept'', ''b''), (''X-Tag'', ''t'')]"
    by (simp add: clean_headers_def clean_step_def forwarded_name_def HOP_BY_HOP_HEADERS_def eval_text)
  from clean_headers_last_value_wins [of ?hs] s
  have "distinct (map fst (clean_headers ?hs))" and "(''Accept'', ''b'') \<in> set (clean_headers ?hs)"
    by blast+
  moreover from c have "(''Accept'', ''a'') \<notin> set (clean_headers ?hs)" by simp
  ultimately show ?thesis using c by (intro conjI)
qed

section \<open>Relaying the response\<close>

lemmas eval_route = get_target_url_def select_route_def READ_METHODS_def get_url_def
  decode_utf8_def byte_in_def DEFAULT_CONFIG_def request_query_string_def
  wsgi_query_string_def wsgi_byte_def

lemmas eval_headers = clean_headers_def clean_step_def forwarded_name_def incoming_headers_def
  response_headers_def excluded_headers_def HOP_BY_HOP_HEADERS_def



lemma target_always_computed:
  "\<exists>url rt. get_target_url conf (req_method req) path (request_query_string req) = Inr (url, rt)"
  using get_target_url_decodable [OF utf8_valid_wsgi_query_string]
  by (simp add: request_query_string_def)

lemma proxy_relays:
  assumes "get_target_url conf (req_method req) path (request_query_string req) = Inr (url, rt)"
    and "requests_request (forwarded_call req url) = Inr up"
    and "response_error \<lparr>status = status_code up, headers = response_headers (resp_headers up),
          body = iter_content up 4096\<rparr> = None"
  shows "proxy conf requests_request response_error req path =
    ([''['' @ req_method req @ ''] '' @ rt @ '': /'' @ path],
     Inr \<lparr>status = status_code up, headers = response_headers (resp_headers up),
          body = iter_content up 4096\<rparr>)"
  using assms by (simp add: proxy_def Let_def)

lemma proxy_catches:
  assumes "get_target_url conf (req_method req) path (request_query_string req) = Inr (url, rt)"
    and "requests_request (forwarded_call req url) = Inl e"
  shows "proxy conf requests_request response_error req path =
    ([''['' @ req_method req @ ''] '' @ rt @ '': /'' @ path, ''Error: '' @ str_of_exception e],
     Inr \<lparr>status = 502, headers = [], body = [''Error: '' @ str_of_exception e]\<rparr>)"
  using assms by (simp add: proxy_def on_exception_def Let_def)

lemma proxy_catches_constructor:
  assumes "get_target_url conf (req_method req) path (request_query_string req) = Inr (url, rt)"
    and "requests_request (forwarded_call req url) = Inr up"
    and "response_error \<lparr>status = status_code up, headers = response_headers (resp_headers up),
          body = iter_content up 4096\<rparr> = Some e"
  shows "proxy conf requests_request response_error req path =
    ([''['' @ req_method req @ ''] '' @ rt @ '': /'' @ path, ''Error: '' @ str_of_exception e],
     Inr \<lparr>status = 502, headers = [], body = [''Error: '' @ str_of_exception e]\<rparr>)"
  using assms by (simp add: proxy_def on_exception_def Let_def)




text \<open>
  C6 (as amended). For every request whose upstream call raises, the handler returns
  a response with status 502 whose body is the text \<^verbatim>\<open>Error: \<close> followed by the
  description of the exception; no content type is given to the \<^verbatim>\<open>Response\<close>, so
  it is sent with Flask's default \<^verbatim>\<open>text/html; charset=utf-8\<close>; and the log is the
  one routing line that every forwarded request logs, followed by exactly one event for
  the failure, with the text of the body.
\<close>

theorem transport_failure_gives_502:
  assumes "get_target_url conf (req_method req) path (request_query_string req) = Inr (url, rt)"
    and "requests_request (forwarded_call req url) = Inl e"
  shows "\<exists>r. snd (proxy conf requests_request response_error req path) = Inr r
           \<and> status r = 502
           \<and> body r = [''Error: '' @ str_of_exception e]
           \<and> content_type r = ''text/html; charset=utf-8''
           \<and> fst (proxy conf requests_request response_error req path) =
               fst (proxy conf (\<lambda>c. Inr up) (\<lambda>r. None) req path)
                 @ [''Error: '' @ str_of_exception e]
           \<and> length (fst (proxy conf (\<lambda>c. Inr up) (\<lambda>r. None) req path)) = 1"
proof -
  let ?r = "\<lparr>status = 502, headers = [], body = [''Error: '' @ str_of_exception e]\<rparr>"
  have ok: "(\<lambda>c. Inr up) (forwarded_call req url) = Inr up" by simp
  have built: "(\<lambda>r. None) \<lparr>status = status_code up, headers = response_headers (resp_headers up),
          body = iter_content up 4096\<rparr> = None" by simp
  from proxy_relays [where requests_request = "\<lambda>c. Inr up" and response_error = "\<lambda>r. None",
      OF assms(1) ok built]
  have l: "fst (proxy conf (\<lambda>c. Inr up) (\<lambda>r. None) req path) =
      [''['' @ req_method req @ ''] '' @ rt @ '': /'' @ path]"
    by simp
  from proxy_catches [where requests_request = requests_request
      and response_error = response_error, OF assms]
  have p: "proxy conf requests_request response_error req path =
      ([''['' @ req_method req @ ''] '' @ rt @ '': /'' @ path, ''Error: '' @ str_of_exception e],
       Inr ?r)" .
  have c: "content_type ?r = ''text/html; charset=utf-8''" by (simp add: content_type_def)
  from p l c have "snd (proxy conf requests_request response_error req path) = Inr ?r
           \<and> status ?r = 502
           \<and> body ?r = [''Error: '' @ str_of_exception e]
           \<and> content_type ?r = ''text/html; charset=utf-8''
           \<and> fst (proxy conf requests_request response_error req path) =
               fst (proxy conf (\<lambda>c. Inr up) (\<lambda>r. None) req path)
                 @ [''Error: '' @ str_of_exception e]
           \<and> length (fst (proxy conf (\<lambda>c. Inr up) (\<lambda>r. None) req path)) = 1"
    by simp
  then show ?thesis by blast
qed

text \<open>
  C6, witness: a PUT whose upstream connection is refused.
\<close>

theorem transport_failure_gives_502_witness:
  "get_target_url DEFAULT_CONFIG ''PUT'' ''files/doc.txt'' []
     = Inr (''https://nas.example.com/files/doc.txt'', ''WRITE (Cloudflare)'')
   \<and> proxy DEFAULT_CONFIG (\<lambda>c. Inl (RaisedException ''ConnectionError'' ''Connection refused''))
        (\<lambda>r. None)
        \<lparr>req_method = ''PUT'', req_raw_query = [], req_headers = [],
         req_stream = ''data'', req_cookies = []\<rparr>
        ''files/doc.txt''
     = ([''[PUT] WRITE (Cloudflare): /files/doc.txt'', ''Error: Connection refused''],
        Inr \<lparr>status = 502, headers = [], body = [''Error: Connection refused'']\<rparr>)
   \<and> (\<exists>r. snd (proxy DEFAULT_CONFIG
               (\<lambda>c. Inl (RaisedException ''ConnectionError'' ''Connection refused''))
               (\<lambda>r. None)
               \<lparr>req_method = ''PUT'', req_raw_query = [], req_headers = [],
                req_stream = ''data'', req_cookies = []\<rparr>
               ''files/doc.txt'') = Inr r
          \<and> status r = 502 \<and> content_type r = ''text/html; charset=utf-8'')"
proof -
  let ?req = "\<lparr>req_method = ''PUT'', req_raw_query = [], req_headers = [],
         req_stream = ''data'', req_cookies = []\<rparr>"
  let ?rr = "\<lambda>c :: upstream_call. (Inl (RaisedException ''ConnectionError'' ''Connection refused'')
               :: py_exception + upstream_response)"
  let ?ok = "\<lambda>r :: response. (None :: py_exception option)"
  have t0: "get_target_url DEFAULT_CONFIG ''PUT'' ''files/doc.txt'' []
     = Inr (''https://nas.example.com/files/doc.txt'', ''WRITE (Cloudflare)'')"
    by (simp add: eval_route eval_text)
  then have t: "get_target_url DEFAULT_CONFIG (req_method ?req) ''files/doc.txt''
       (request_query_string ?req)
     = Inr (''https://nas.example.com/files/doc.txt'', ''WRITE (Cloudflare)'')"
    by (simp add: request_query_string_def wsgi_query_string_def)
  have u: "?rr (forwarded_call ?req ''https://nas.example.com/files/doc.txt'')
     = Inl (RaisedException ''ConnectionError'' ''Connection refused'')" by simp
  have p: "proxy DEFAULT_CONFIG ?rr ?ok ?req ''files/doc.txt''
     = ([''[PUT] WRITE (Cloudflare): /files/doc.txt'', ''Error: Connection refused''],
        Inr \<lparr>status = 502, headers = [], body = [''Error: Connection refused'']\<rparr>)"
    by (simp add: proxy_def on_exception_def Let_def eval_route eval_headers eval_text)
  from transport_failure_gives_502 [where requests_request = ?rr and response_error = ?ok, OF t u]
  have "\<exists>r. snd (proxy DEFAULT_CONFIG ?rr ?ok ?req ''files/doc.txt'') = Inr r
          \<and> status r = 502 \<and> content_type r = ''text/html; charset=utf-8''" by blast
  with t0 p show ?thesis by (intro conjI)
qed

text \<open>
  C6, counterexample to the claim as stated: the 502 response for a refused
  connection has the content type \<^verbatim>\<open>text/html; charset=utf-8\<close>; its body is not
  sent as plain text.
\<close>

theorem error_response_is_sent_as_html:
  "snd (proxy DEFAULT_CONFIG (\<lambda>c. Inl (RaisedException ''ConnectionError'' ''Connection refused''))
        (\<lambda>r. None)
        \<lparr>req_method = ''GET'', req_raw_query = [], req_headers = [],
         req_stream = [], req_cookies = []\<rparr>
        ''files/doc.txt'')
     = Inr \<lparr>status = 502, headers = [], body = [''Error: Connection refused'']\<rparr>
   \<and> content_type \<lparr>status = 502, headers = [], body = [''Error: Connection refused'']\<rparr>
       = ''text/html; charset=utf-8''
   \<and> take 10 ''text/html; charset=utf-8'' \<noteq> ''text/plain''"
  by (simp add: proxy_def on_exception_def content_type_def Let_def eval_route eval_headers eval_text)

text \<open>
  C10 (as amended). For every request the handler returns a response and no
  exception leaves it, whatever the library calls do; and every exception raised in
  the \<^verbatim>\<open>try\<close> block, by the upstream call or by the construction of the
  response, of whatever class, is turned into the 502 response whose body is
  \<^verbatim>\<open>Error: \<close> followed by the text of the exception.
\<close>

theorem handler_returns_502_on_exception:
  "(\<exists>log r. proxy conf requests_request response_error req path = (log, Inr r))
   \<and> (\<forall>url rt e.
         get_target_url conf (req_method req) path (request_query_string req) = Inr (url, rt)
         \<and> (requests_request (forwarded_call req url) = Inl e
            \<or> (\<exists>up. requests_request (forwarded_call req url) = Inr up
                  \<and> response_error
                      \<lparr>status = status_code up,
                       headers = response_headers (resp_headers up),
                       body = iter_content up 4096\<rparr> = Some e)) \<longrightarrow>
         snd (proxy conf requests_request response_error req path) =
           Inr \<lparr>status = 502, headers = [],
                body = [''Error: '' @ str_of_exception e]\<rparr>)"
proof -
  obtain url rt where
    t: "get_target_url conf (req_method req) path (request_query_string req) = Inr (url, rt)"
    using target_always_computed by blast
  have 1: "\<exists>log r. proxy conf requests_request response_error req path = (log, Inr r)"
  proof (cases "requests_request (forwarded_call req url)")
    case (Inl e)
    from proxy_catches [where requests_request = requests_request
        and response_error = response_error, OF t Inl]
    show ?thesis by blast
  next
    case (Inr up)
    show ?thesis
    proof (cases "response_error \<lparr>status = status_code up,
        headers = response_headers (resp_headers up), body = iter_content up 4096\<rparr>")
      case None
      from proxy_relays [where requests_request = requests_request
          and response_error = response_error, OF t Inr None]
      show ?thesis by blast
    next
      case (Some e)
      from proxy_catches_constructor [where requests_request = requests_request
          and response_error = response_error, OF t Inr Some]
      show ?thesis by blast
    qed
  qed
  have 2: "\<forall>url rt e.
         get_target_url conf (req_method req) path (request_query_string req) = Inr (url, rt)
         \<and> (requests_request (forwarded_call req url) = Inl e
            \<or> (\<exists>up. requests_request (forwarded_call req url) = Inr up
                  \<and> response_error
                      \<lparr>status = status_code up,
                       headers = response_headers (resp_headers up),
                       body = iter_content up 4096\<rparr> = Some e)) \<longrightarrow>
         snd (proxy conf requests_request response_error req path) =
           Inr \<lparr>status = 502, headers = [],
                body = [''Error: '' @ str_of_exception e]\<rparr>"
  proof (intro allI impI, elim conjE disjE exE)
    fix url' rt' e
    assume a: "get_target_url conf (req_method req) path (request_query_string req) = Inr (url', rt')"
      and b: "requests_request (forwarded_call req url') = Inl e"
    from proxy_catches [where requests_request = requests_request
        and response_error = response_error, OF a b]
    show "snd (proxy conf requests_request response_error req path) =
           Inr \<lparr>status = 502, headers = [],
                body = [''Error: '' @ str_of_exception e]\<rparr>" by simp
  next
    fix url' rt' e up
    assume a: "get_target_url conf (req_method req) path (request_query_string req) = Inr (url', rt')"
      and b: "requests_request (forwarded_call req url') = Inr up"
      and c: "response_error \<lparr>status = status_code up,
                       headers = response_headers (resp_headers up),
                       body = iter_content up 4096\<rparr> = Some e"
    from proxy_catches_constructor [where requests_request = requests_request
        and response_error = response_error, OF a b c]
    show "snd (proxy conf requests_request response_error req path) =
           Inr \<lparr>status = 502, headers = [],
                body = [''Error: '' @ str_of_exception e]\<rparr>" by simp
  qed
  from 1 2 show ?thesis ..
qed

text \<open>
  C10, witness: a PROPFIND on the root path whose request line has the byte
  \<^verbatim>\<open>0xFF\<close> in the query; the target is computed, and an exception that is no
  transport failure, raised while the response is built, gives the 502 response.
\<close>

theorem handler_returns_502_on_exception_witness:
  "get_target_url DEFAULT_CONFIG ''PROPFIND'' []
       (request_query_string \<lparr>req_method = ''PROPFIND'', req_raw_query = [CHR 0xFF],
          req_headers = [], req_stream = [], req_cookies = []\<rparr>)
     = Inr (''http://192.168.100.10:5000/?'' @ [CHR 0xC3, CHR 0xBF], ''READ (Tailscale)'')
   \<and> proxy DEFAULT_CONFIG
        (\<lambda>c. Inr \<lparr>status_code = 207, resp_headers = [], raw_body = ''xml'',
                   iter_content = (\<lambda>n. [''xml''])\<rparr>)
        (\<lambda>r. Some (RaisedException ''ValueError'' ''bad header''))
        \<lparr>req_method = ''PROPFIND'', req_raw_query = [CHR 0xFF], req_headers = [],
         req_stream = [], req_cookies = []\<rparr> []
     = ([''[PROPFIND] READ (Tailscale): /'', ''Error: bad header''],
        Inr \<lparr>status = 502, headers = [], body = [''Error: bad header'']\<rparr>)"
proof -
  let ?req = "\<lparr>req_method = ''PROPFIND'', req_raw_query = [CHR 0xFF], req_headers = [],
         req_stream = [], req_cookies = []\<rparr>"
  let ?up = "\<lparr>status_code = 207, resp_headers = [], raw_body = ''xml'',
                   iter_content = (\<lambda>n :: nat. [''xml''])\<rparr>"
  let ?rr = "\<lambda>c :: upstream_call. (Inr ?up :: py_exception + upstream_response)"
  let ?bad = "\<lambda>r :: response. Some (RaisedException ''ValueError'' ''bad header'')"
  have q: "request_query_string ?req = [CHR 0xC3, CHR 0xBF]"
    by (simp add: request_query_string_def wsgi_query_string_def wsgi_byte_def char_of_def bit_iff_odd)
  have t: "get_target_url DEFAULT_CONFIG (req_method ?req) [] (request_query_string ?req)
     = Inr (''http://192.168.100.10:5000/?'' @ [CHR 0xC3, CHR 0xBF], ''READ (Tailscale)'')"
    by (simp add: q get_target_url_def select_route_def READ_METHODS_def get_url_def
        decode_utf8_def byte_in_def DEFAULT_CONFIG_def eval_text)
  have c: "?rr (forwarded_call ?req (''http://192.168.100.10:5000/?'' @ [CHR 0xC3, CHR 0xBF])) = Inr ?up
      \<and> ?bad \<lparr>status = status_code ?up, headers = response_headers (resp_headers ?up),
             body = iter_content ?up 4096\<rparr> = Some (RaisedException ''ValueError'' ''bad header'')"
    by simp
  from handler_returns_502_on_exception [where requests_request = ?rr
      and response_error = ?bad and req = ?req and conf = DEFAULT_CONFIG and path = "[]"] t c
  have s: "snd (proxy DEFAULT_CONFIG ?rr ?bad ?req []) =
      Inr \<lparr>status = 502, headers = [], body = [''Error: bad header'']\<rparr>"
    by auto
  have l: "fst (proxy DEFAULT_CONFIG ?rr ?bad ?req []) =
      [''[PROPFIND] READ (Tailscale): /'', ''Error: bad header'']"
    using t by (simp add: proxy_def on_exception_def Let_def)
  from s l have "proxy DEFAULT_CONFIG ?rr ?bad ?req [] =
      ([''[PROPFIND] READ (Tailscale): /'', ''Error: bad header''],
       Inr \<lparr>status = 502, headers = [], body = [''Error: bad header'']\<rparr>)"
    by (simp add: prod_eq_iff)
  with t show ?thesis by simp
qed

text \<open>
  C10, counterexample to the claim as stated: the body of the 502 response for an
  exception with the text \<^verbatim>\<open>refused\<close> is \<^verbatim>\<open>Error: refused\<close>, not the text of the
  exception.
\<close>

theorem error_body_is_prefixed:
  "snd (proxy DEFAULT_CONFIG (\<lambda>c. Inl (RaisedException ''ConnectionError'' ''refused''))
          (\<lambda>r. None)
          \<lparr>req_method = ''GET'', req_raw_query = [], req_headers = [],
           req_stream = [], req_cookies = []\<rparr> ''doc.txt'')
     = Inr \<lparr>status = 502, headers = [], body = [''Error: refused'']\<rparr>
   \<and> str_of_exception (RaisedException ''ConnectionError'' ''refused'') = ''refused''
   \<and> ''Error: refused'' \<noteq> ''refused''"
  by (simp add: proxy_def on_exception_def Let_def eval_route eval_headers eval_text)

section \<open>Starting the server and saving the configuration\<close>

lemma load_config_aliases:
  "self_config (fst (load_config file w)) = app_config (snd (load_config file w))"
  by (simp add: load_config_def Let_def)

text \<open>
  C7 (as amended). When the server is started while it is not running,
  \<^verbatim>\<open>toggle_server\<close> validates nothing: whatever the three form values are, it
  stores them in the active configuration, starts the server thread and sets the
  running flag, and the control plane gets the ordinary start events and no error.
\<close>

theorem start_without_validation:
  assumes "\<not> app_running w"
  shows "app_running (fst (toggle_server vars w))
         \<and> app_server_thread (fst (toggle_server vars w))
         \<and> app_config (fst (toggle_server vars w)) = app_config w
         \<and> heap (fst (toggle_server vars w)) (app_config w) =
             (heap w (app_config w))
               \<lparr>tailscale_url := Some (ts_url_var vars),
                cloudflare_url := Some (cf_url_var vars),
                local_port := Some (PortStr (port_var vars))\<rparr>
         \<and> snd (toggle_server vars w) =
             [ThreadStarted, ButtonDisabled, LogServiceStarted,
              LogLocalAddress (Some (PortStr (port_var vars)))]"
  using assms by (simp add: toggle_server_def Let_def)

text \<open>
  C7, witness: started from the state after program start with the port text
  \<^verbatim>\<open>abc\<close>, the server counts as running and the port text is in the active
  configuration.
\<close>

theorem start_without_validation_witness:
  "\<not> app_running (snd (load_config None AppState_init))
   \<and> app_running (fst (toggle_server
        \<lparr>ts_url_var = ''http://a'', cf_url_var = ''http://b'', port_var = ''abc'',
         auto_start_var = False\<rparr> (snd (load_config None AppState_init))))
   \<and> local_port (heap (fst (toggle_server
        \<lparr>ts_url_var = ''http://a'', cf_url_var = ''http://b'', port_var = ''abc'',
         auto_start_var = False\<rparr> (snd (load_config None AppState_init))))
        (app_config (snd (load_config None AppState_init)))) = Some (PortStr ''abc'')"
proof -
  let ?w = "snd (load_config None AppState_init)"
  let ?vars = "\<lparr>ts_url_var = ''http://a'', cf_url_var = ''http://b'', port_var = ''abc'',
         auto_start_var = False\<rparr>"
  have n: "\<not> app_running ?w" by (simp add: load_config_def AppState_init_def Let_def)
  from start_without_validation [OF n, of ?vars] n show ?thesis
    by simp
qed

text \<open>
  C7, counterexample to the claim as stated: started with both base URLs empty, the
  server is marked running with the empty URLs in its active configuration, and the
  control plane gets the ordinary start events and no error.
\<close>

theorem server_runs_with_empty_urls:
  "\<not> app_running (snd (load_config None AppState_init))
   \<and> app_running (fst (toggle_server
        \<lparr>ts_url_var = [], cf_url_var = [], port_var = ''8888'', auto_start_var = False\<rparr>
        (snd (load_config None AppState_init))))
   \<and> tailscale_url (heap (fst (toggle_server
        \<lparr>ts_url_var = [], cf_url_var = [], port_var = ''8888'', auto_start_var = False\<rparr>
        (snd (load_config None AppState_init)))) (app_config (snd (load_config None AppState_init))))
       = Some []
   \<and> cloudflare_url (heap (fst (toggle_server
        \<lparr>ts_url_var = [], cf_url_var = [], port_var = ''8888'', auto_start_var = False\<rparr>
        (snd (load_config None AppState_init)))) (app_config (snd (load_config None AppState_init))))
       = Some []
   \<and> snd (toggle_server
        \<lparr>ts_url_var = [], cf_url_var = [], port_var = ''8888'', auto_start_var = False\<rparr>
        (snd (load_config None AppState_init)))
       = [ThreadStarted, ButtonDisabled, LogServiceStarted,
          LogLocalAddress (Some (PortStr ''8888''))]"
  by (simp add: toggle_server_def load_config_def AppState_init_def Let_def)

text \<open>
  C8 (as amended). When the window's dictionary and \<^verbatim>\<open>app_state.config\<close> are the
  same object, as \<^verbatim>\<open>load_config\<close> makes them, \<^verbatim>\<open>save_config\<close> publishes no new
  object: \<^verbatim>\<open>app_state.config\<close> keeps its reference, the four form values are
  assigned into that one dictionary, and a reference taken before the save reads the
  saved values afterwards, so a target computed through it uses them.
\<close>

theorem save_config_mutates_shared_dictionary:
  assumes "self_config self = app_config w"
  shows "app_config (fst (save_config vars written self w)) = app_config w
         \<and> heap (fst (save_config vars written self w)) (capture_config w) =
             (heap w (capture_config w))
               \<lparr>tailscale_url := Some (ts_url_var vars),
                cloudflare_url := Some (cf_url_var vars),
                local_port := Some (PortStr (port_var vars)),
                auto_start := Some (auto_start_var vars)\<rparr>
         \<and> target_via (fst (save_config vars written self w)) (capture_config w) m p q =
             get_target_url
               ((heap w (capture_config w))
                  \<lparr>tailscale_url := Some (ts_url_var vars),
                   cloudflare_url := Some (cf_url_var vars),
                   local_port := Some (PortStr (port_var vars)),
                   auto_start := Some (auto_start_var vars)\<rparr>) m p q"
  using assms by (simp add: save_config_def capture_config_def target_via_def Let_def)

text \<open>
  C8, witness: after program start the two references are equal, and a reference
  taken before a save of the read URL \<^verbatim>\<open>http://new\<close> gives a target on that URL.
\<close>

theorem save_config_mutates_shared_dictionary_witness:
  "self_config (fst (load_config None AppState_init))
     = app_config (snd (load_config None AppState_init))
   \<and> target_via
        (fst (save_config
           \<lparr>ts_url_var = ''http://new'', cf_url_var = ''https://nas.example.com'',
            port_var = ''8888'', auto_start_var = False\<rparr> True
           (fst (load_config None AppState_init)) (snd (load_config None AppState_init))))
        (capture_config (snd (load_config None AppState_init))) ''GET'' ''doc.txt'' []
       = Inr (''http://new/doc.txt'', ''READ (Tailscale)'')"
proof -
  let ?self = "fst (load_config None AppState_init)"
  let ?w = "snd (load_config None AppState_init)"
  let ?vars = "\<lparr>ts_url_var = ''http://new'', cf_url_var = ''https://nas.example.com'',
            port_var = ''8888'', auto_start_var = False\<rparr>"
  have a: "self_config ?self = app_config ?w" by (rule load_config_aliases)
  from save_config_mutates_shared_dictionary [OF a, of ?vars True "''GET''" "''doc.txt''" "[]"] a
  show ?thesis by (simp add: eval_route eval_text)
qed

text \<open>
  C8, counterexample to the claim as stated: a request takes its reference to the
  configuration, the configuration is saved with a new read URL, and the request
  computes its target; the target is on the new URL, where before the save the same
  reference gave the old one. The save left \<^verbatim>\<open>app_state.config\<close> on the object
  that the request holds.
\<close>

theorem captured_config_changes_under_save:
  "target_via (snd (load_config None AppState_init))
        (capture_config (snd (load_config None AppState_init))) ''GET'' ''doc.txt'' []
       = Inr (''http://192.168.100.10:5000/doc.txt'', ''READ (Tailscale)'')
   \<and> target_via
        (fst (save_config
           \<lparr>ts_url_var = ''http://new'', cf_url_var = ''https://nas.example.com'',
            port_var = ''8888'', auto_start_var = False\<rparr> True
           (fst (load_config None AppState_init)) (snd (load_config None AppState_init))))
        (capture_config (snd (load_config None AppState_init))) ''GET'' ''doc.txt'' []
       = Inr (''http://new/doc.txt'', ''READ (Tailscale)'')
   \<and> app_config (fst (save_config
           \<lparr>ts_url_var = ''http://new'', cf_url_var = ''https://nas.example.com'',
            port_var = ''8888'', auto_start_var = False\<rparr> True
           (fst (load_config None AppState_init)) (snd (load_config None AppState_init))))
       = capture_config (snd (load_config None AppState_init))"
  by (simp add: target_via_def capture_config_def save_config_def load_config_def
      AppState_init_def Let_def eval_route eval_text)

end
